theory Spec2Isabelle
  imports Complex_Main "HOL-Library.Monad_Syntax"
begin

section \<open>Aggregate estimation of Table 1: likelihood and clustered standard errors\<close>

text \<open>
  The notebook \<^verbatim>\<open>code/table_1.ipynb\<close> is a linear script: it cleans the decision
  data, defines the negative log-likelihood \<^verbatim>\<open>negloglike\<close>, minimises it, and computes
  cluster-robust standard errors. Each definition below embeds one cell or one expression
  of the notebook, quoted beside it.

  Numbers: the script computes with IEEE doubles. They are read here as real numbers, so
  rounding and overflow are not modelled. A value of type \<open>real option\<close> is \<open>None\<close>
  where an operation has no real value (a division by zero, a negative base under a
  fractional exponent, the logarithm of a non-positive number, the square root of a
  negative number, a non-positive scale of the normal density): numpy returns
  \<^verbatim>\<open>nan\<close> or \<^verbatim>\<open>inf\<close> there and raises nothing. Python exceptions are values
  of the type \<open>error\<close>.
\<close>

datatype error = ValueError | ZeroDivisionError | LinAlgError

subsection \<open>Double arithmetic, read over the reals\<close>

definition fdiv :: "real \<Rightarrow> real \<Rightarrow> real option" where
  "fdiv a b = (if b = 0 then None else Some (a / b))"

text \<open>
  \<^verbatim>\<open>x ** y\<close> on doubles: anything to the power 0 is 1, 1 to any power is 1, a positive
  base is \<open>exp (y * ln x)\<close>, 0 to a positive power is 0 and to a negative power is
  infinite, a negative base is defined at integer exponents only.
\<close>

definition fpow :: "real \<Rightarrow> real \<Rightarrow> real option" where
  "fpow x y =
     (if y = 0 \<or> x = 1 then Some 1
      else if 0 < x then Some (x powr y)
      else if x = 0 then (if 0 < y then Some 0 else None)
      else if y \<in> \<int> then Some ((if even \<lfloor>y\<rfloor> then 1 else - 1) * ((- x) powr y))
      else None)"

definition flog :: "real \<Rightarrow> real option" where
  "flog x = (if 0 < x then Some (ln x) else None)"

definition fsqrt :: "real \<Rightarrow> real option" where
  "fsqrt x = (if 0 \<le> x then Some (sqrt x) else None)"

text \<open>
  \<^verbatim>\<open>norm.pdf(x, loc, scale)\<close>: the density of the normal distribution with mean
  \<open>loc\<close> and standard deviation \<open>scale\<close>; scipy returns \<^verbatim>\<open>nan\<close> unless the scale
  is positive.
\<close>

definition norm_pdf :: "real \<Rightarrow> real \<Rightarrow> real \<Rightarrow> real option" where
  "norm_pdf x loc scale =
     (if scale \<le> 0 then None
      else Some (exp (- (((x - loc) / scale)\<^sup>2) / 2) / sqrt (2 * pi) / scale))"

subsection \<open>The observation table\<close>

text \<open>
  \<open>args\<close> holds the eight columns passed to \<^verbatim>\<open>negloglike\<close> (the list
  \<^verbatim>\<open>columns\<close> of the estimation cell, in its order); a row of the cleaned table
  \<^verbatim>\<open>dt\<close> has the individual id \<^verbatim>\<open>wid\<close> besides. The two boundary dummies are
  integers (\<^verbatim>\<open>astype(int)\<close>).
\<close>

record args =
  netdistance :: real
  wage :: real
  today :: real
  prediction :: real
  pb :: real
  effort :: real
  ind_effort10 :: int
  ind_effort110 :: int

record obs = args +
  wid :: int

definition mle_args :: "obs list \<Rightarrow> args list" where
  "mle_args dt = map args.truncate dt"

subsection \<open>The parameter vector\<close>

record params =
  beta :: real
  betahat :: real
  delta :: real
  gamma :: real
  phi :: real
  alpha :: real
  sigma :: real

text \<open>
  \<^verbatim>\<open>beta, betahat, delta, gamma, phi, alpha, sigma = params\<close>: unpacking raises
  \<^verbatim>\<open>ValueError\<close> unless the vector has exactly seven entries.
\<close>

fun unpack :: "real list \<Rightarrow> error + params" where
  "unpack [b, bh, d, g, ph, a, s] =
     Inr \<lparr>beta = b, betahat = bh, delta = d, gamma = g, phi = ph, alpha = a, sigma = s\<rparr>"
| "unpack _ = Inl ValueError"

definition par_init :: "real list" where
  "par_init = [0.8, 1.0, 1.0, 2.0, 500.0, 7.0, 40.0]"

subsection \<open>The likelihood\<close>

text \<open>
  \<^verbatim>\<open>predchoice = ((phi*(delta**netdistance)*(beta**today)*(betahat**prediction)*wage)
               **(1/(gamma-1))) - pb*alpha\<close>, for one row.
\<close>

definition predchoice :: "params \<Rightarrow> args \<Rightarrow> real option" where
  "predchoice p a = do {
     d \<leftarrow> fpow (delta p) (netdistance a);
     b \<leftarrow> fpow (beta p) (today a);
     bh \<leftarrow> fpow (betahat p) (prediction a);
     ex \<leftarrow> fdiv 1 (gamma p - 1);
     c \<leftarrow> fpow (phi p * d * b * bh * wage a) ex;
     Some (c - pb a * alpha p)
   }"

text \<open>
  \<^verbatim>\<open>prob = (1-ind_effort10-ind_effort110)*norm.pdf(effort, predchoice, sigma)
       + ind_effort10*(1 - norm.cdf((predchoice-effort)/sigma))
       + ind_effort110*norm.cdf((predchoice-effort)/sigma)\<close>, for one row; \<open>cdf\<close> is
  \<^verbatim>\<open>norm.cdf\<close>, the standard normal distribution function of scipy, a parameter
  of the model.
\<close>

definition prob :: "(real \<Rightarrow> real) \<Rightarrow> params \<Rightarrow> args \<Rightarrow> real option" where
  "prob cdf p a = do {
     e \<leftarrow> predchoice p a;
     dens \<leftarrow> norm_pdf (effort a) e (sigma p);
     z \<leftarrow> fdiv (e - effort a) (sigma p);
     Some ((1 - of_int (ind_effort10 a) - of_int (ind_effort110 a)) * dens
           + of_int (ind_effort10 a) * (1 - cdf z)
           + of_int (ind_effort110 a) * cdf z)
   }"

text \<open>
  \<^verbatim>\<open>prob = anp.where(prob == 0.0, 1.0e-4, prob)\<close> and then
  \<^verbatim>\<open>prob = anp.where(prob == 1.0, 1.0 - 1.0e-4, prob)\<close>, for one entry; then
  \<^verbatim>\<open>negll = - anp.sum(anp.log(prob))\<close> over the rows.
\<close>

definition clamp :: "real \<Rightarrow> real" where
  "clamp x = (let x1 = (if x = 0 then 0.0001 else x)
              in if x1 = 1 then 1 - 0.0001 else x1)"

definition negloglike :: "(real \<Rightarrow> real) \<Rightarrow> real list \<Rightarrow> args list \<Rightarrow> error + real option" where
  "negloglike cdf ps rows =
     (case unpack ps of
        Inl e \<Rightarrow> Inl e
      | Inr p \<Rightarrow> Inr (do {
          probs \<leftarrow> those (map (prob cdf p) rows);
          logs \<leftarrow> those (map (\<lambda>x. flog (clamp x)) probs);
          Some (- sum_list logs)
        }))"

subsection \<open>The adjustment for degrees of freedom and clusters\<close>

text \<open>
  \<^verbatim>\<open>adj = (Nobs-1)/(Nobs-K) * Nindiv/(Nindiv-1)\<close> on Python integers: the
  differences are signed, the divisions are true divisions and raise
  \<^verbatim>\<open>ZeroDivisionError\<close> on a zero divisor, and the expression associates to the left.
\<close>

definition adj_factor :: "nat \<Rightarrow> nat \<Rightarrow> nat \<Rightarrow> error + real" where
  "adj_factor Nobs K Nindiv =
     (if int Nobs - int K = 0 then Inl ZeroDivisionError
      else if int Nindiv - 1 = 0 then Inl ZeroDivisionError
      else Inr (of_int (int Nobs - 1) / of_int (int Nobs - int K) * of_nat Nindiv
                / of_int (int Nindiv - 1)))"

subsection \<open>Data cleaning\<close>

text \<open>
  The columns of \<^verbatim>\<open>decisions_data.dta\<close> that the script reads. The cleaning cells
  keep the rows whose \<^verbatim>\<open>wid\<close> is listed in \<^verbatim>\<open>ind_to_keep.csv\<close>, drop the rows
  with \<^verbatim>\<open>bonusoffered == 1\<close>, and add \<^verbatim>\<open>pb = workdone1/10\<close>,
  \<^verbatim>\<open>ind_effort10 = (effort==10).astype(int)\<close> and
  \<^verbatim>\<open>ind_effort110 = (effort==110).astype(int)\<close>.
\<close>

record raw =
  raw_wid :: int
  bonusoffered :: real
  workdone1 :: real
  raw_effort :: real
  raw_netdistance :: real
  raw_wage :: real
  raw_today :: real
  raw_prediction :: real

definition prepare :: "raw \<Rightarrow> obs" where
  "prepare r =
     \<lparr>netdistance = raw_netdistance r, wage = raw_wage r, today = raw_today r,
      prediction = raw_prediction r, pb = workdone1 r / 10, effort = raw_effort r,
      ind_effort10 = (if raw_effort r = 10 then 1 else 0),
      ind_effort110 = (if raw_effort r = 110 then 1 else 0),
      wid = raw_wid r\<rparr>"

definition clean :: "raw list \<Rightarrow> int list \<Rightarrow> obs list" where
  "clean dta ind_keep =
     map prepare (filter (\<lambda>r. bonusoffered r \<noteq> 1) (filter (\<lambda>r. raw_wid r \<in> set ind_keep) dta))"

subsection \<open>Matrices\<close>

text \<open>
  A two-dimensional array is the list of its rows. The Hessian, its inverse and \<open>G\<close>
  are all \<open>n \<times> n\<close> with \<open>n\<close> the length of the estimate, so the matrix product
  \<^verbatim>\<open>@\<close> is written for that shape.
\<close>

type_synonym matrix = "real list list"

definition matmul :: "nat \<Rightarrow> matrix \<Rightarrow> matrix \<Rightarrow> matrix" where
  "matmul n A B =
     map (\<lambda>i. map (\<lambda>j. sum_list (map (\<lambda>k. A ! i ! k * B ! k ! j) [0..<n])) [0..<n]) [0..<n]"

definition smult :: "real \<Rightarrow> matrix \<Rightarrow> matrix" where
  "smult c A = map (map (\<lambda>x. c * x)) A"

definition diag :: "nat \<Rightarrow> matrix \<Rightarrow> real list" where
  "diag n A = map (\<lambda>i. A ! i ! i) [0..<n]"

definition identity :: "nat \<Rightarrow> matrix" where
  "identity n = map (\<lambda>i. map (\<lambda>j. if i = j then 1 else 0) [0..<n]) [0..<n]"

definition mat_neg :: "nat \<Rightarrow> matrix \<Rightarrow> matrix" where
  "mat_neg n A = map (\<lambda>i. map (\<lambda>j. - (A ! i ! j)) [0..<n]) [0..<n]"

definition is_inverse :: "nat \<Rightarrow> matrix \<Rightarrow> matrix \<Rightarrow> bool" where
  "is_inverse n A B \<longleftrightarrow> matmul n A B = identity n \<and> matmul n B A = identity n"

subsection \<open>Standard errors\<close>

text \<open>
  The library functions the script calls: \<^verbatim>\<open>norm.cdf\<close>, the minimiser
  (\<^verbatim>\<open>opt.minimize(..., method='Nelder-Mead', options={'maxiter': 1500}).x\<close>),
  \<^verbatim>\<open>autograd.hessian\<close>, \<^verbatim>\<open>autograd.grad\<close> and \<^verbatim>\<open>np.linalg.inv\<close>. They are
  not part of the repository and are parameters of the model.
\<close>

record library =
  norm_cdf :: "real \<Rightarrow> real"
  minimize_x :: "(real list \<Rightarrow> error + real option) \<Rightarrow> real list \<Rightarrow> real list"
  autograd_hessian :: "(real list \<Rightarrow> error + real option) \<Rightarrow> real list \<Rightarrow> matrix"
  autograd_grad :: "(real list \<Rightarrow> error + real option) \<Rightarrow> real list \<Rightarrow> real list"
  linalg_inv :: "matrix \<Rightarrow> error + matrix"

text \<open>
  \<^verbatim>\<open>gradients = dt.apply(lambda x: gradfun(res, *tuple(x[name] for name in columns)),
  axis=1, result_type='expand')\<close>: one gradient of \<^verbatim>\<open>negloglike\<close> per row, taken at
  \<^verbatim>\<open>res\<close> with the row's eight values as the data.
\<close>

definition gradients :: "library \<Rightarrow> real list \<Rightarrow> obs list \<Rightarrow> real list list" where
  "gradients L res dt =
     map (\<lambda>x. autograd_grad L (\<lambda>ps. negloglike (norm_cdf L) ps [args.truncate x]) res) dt"

text \<open>
  \<^verbatim>\<open>gradients.index = pd.Index(dt["wid"])\<close>,
  \<^verbatim>\<open>gradients_indiv = gradients.groupby("wid").sum()\<close>: one row per distinct
  \<^verbatim>\<open>wid\<close>, in increasing order of \<^verbatim>\<open>wid\<close>, holding the column sums of the
  gradients of the rows with that \<^verbatim>\<open>wid\<close>. The gradients have the shape of
  \<^verbatim>\<open>res\<close>, so there are \<open>n = len(res)\<close> columns.
\<close>

definition group_sum :: "nat \<Rightarrow> obs list \<Rightarrow> real list list \<Rightarrow> int \<Rightarrow> real list" where
  "group_sum n dt gs w =
     map (\<lambda>k. sum_list (map (\<lambda>i. gs ! i ! k) (filter (\<lambda>i. wid (dt ! i) = w) [0..<length dt])))
       [0..<n]"

definition gradients_indiv :: "nat \<Rightarrow> obs list \<Rightarrow> real list list \<Rightarrow> real list list" where
  "gradients_indiv n dt gs = map (group_sum n dt gs) (sort (remdups (map wid dt)))"

text \<open>
  \<^verbatim>\<open>G_j = gradients_indiv[:, :, None] * gradients_indiv[:, None, :]\<close> and
  \<^verbatim>\<open>G = np.sum(G_j, axis=0)\<close>.
\<close>

definition outer_sum :: "nat \<Rightarrow> real list list \<Rightarrow> matrix" where
  "outer_sum n gi =
     map (\<lambda>a. map (\<lambda>b. sum_list (map (\<lambda>g. g ! a * g ! b) gi)) [0..<n]) [0..<n]"

record estimation =
  res :: "real list"
  hessian :: matrix
  hess_inv :: matrix
  G :: matrix
  Nobs :: nat
  Nindiv :: nat
  K :: nat
  adj :: real
  varcov_estimates :: matrix
  se_cluster :: "real option list"

text \<open>
  The estimation and standard-error cells in order. \<^verbatim>\<open>Hfun(res, *mle_args)\<close>
  evaluates \<^verbatim>\<open>negloglike\<close> at \<^verbatim>\<open>res\<close>, so the exception of the unpacking
  surfaces there; \<^verbatim>\<open>np.linalg.inv\<close> raises on a singular matrix; the division in
  \<^verbatim>\<open>adj\<close> raises on a zero divisor.
\<close>

definition estimate :: "library \<Rightarrow> obs list \<Rightarrow> error + estimation" where
  "estimate L dt =
     (let f = (\<lambda>ps. negloglike (norm_cdf L) ps (mle_args dt));
          sol_x = minimize_x L f par_init
      in case f sol_x of
           Inl e \<Rightarrow> Inl e
         | Inr _ \<Rightarrow>
            (let H = autograd_hessian L f sol_x
             in case linalg_inv L H of
                  Inl e \<Rightarrow> Inl e
                | Inr Hi \<Rightarrow>
                   (let n = length sol_x;
                        Gm = outer_sum n (gradients_indiv n dt (gradients L sol_x dt));
                        N = length dt;
                        Ni = length (remdups (map wid dt))
                    in case adj_factor N n Ni of
                         Inl e \<Rightarrow> Inl e
                       | Inr a \<Rightarrow>
                          (let V = smult a (matmul n (matmul n Hi Gm) Hi)
                           in Inr \<lparr>res = sol_x, hessian = H, hess_inv = Hi, G = Gm,
                                   Nobs = N, Nindiv = Ni, K = n, adj = a,
                                   varcov_estimates = V,
                                   se_cluster = map fsqrt (diag n V)\<rparr>))))"

subsection \<open>Derivatives\<close>

text \<open>
  \<^verbatim>\<open>autograd.grad\<close> and \<^verbatim>\<open>autograd.hessian\<close> differentiate
  \<^verbatim>\<open>negloglike\<close> in its first argument. The partial derivative of a function of a
  vector in its \<open>i\<close>-th entry, as a relation:
\<close>

definition partial_derivative :: "(real list \<Rightarrow> real) \<Rightarrow> real list \<Rightarrow> nat \<Rightarrow> real \<Rightarrow> bool" where
  "partial_derivative f x i d \<longleftrightarrow> ((\<lambda>t. f (x[i := t])) has_real_derivative d) (at (x ! i))"

subsection \<open>Sample inputs\<close>

text \<open>
  Concrete inputs on which the theorems below are instantiated: a small raw table, and
  stand-ins for the library functions (a distribution function that reaches 0 and 1, a
  minimiser that returns its starting point, a Hessian and its inverse).
\<close>

definition sample_cdf :: "real \<Rightarrow> real" where
  "sample_cdf z = (if z < - 1 then 0 else if 1 < z then 1 else (z + 1) / 2)"

definition sample_library :: library where
  "sample_library =
     \<lparr>norm_cdf = sample_cdf,
      minimize_x = (\<lambda>f x0. x0),
      autograd_hessian = (\<lambda>f x. smult 2 (identity 7)),
      autograd_grad = (\<lambda>f x. x),
      linalg_inv = (\<lambda>M. if M = smult 2 (identity 7) then Inr (smult (1/2) (identity 7))
                         else Inl LinAlgError)\<rparr>"

definition sample_dta :: "raw list" where
  "sample_dta = map (\<lambda>i.
      \<lparr>raw_wid = int (i mod 3), bonusoffered = (if i = 4 then 1 else 0), workdone1 = (if even i then 10 else 0),
       raw_effort = (if i = 0 then 10 else if i = 1 then 110 else 50), raw_netdistance = real i,
       raw_wage = 0.1, raw_today = (if i < 5 then 1 else 0), raw_prediction = (if i < 5 then 0 else 1)\<rparr>)
     [0..<14]"

section \<open>Properties\<close>

subsection \<open>Unpacking and the stages of the estimation\<close>

lemma unpack_Inr_length: "unpack ps = Inr p \<Longrightarrow> length ps = 7"
  by (erule unpack.elims) simp_all

lemma unpack_length: "length ps = 7 \<Longrightarrow> \<exists>p. unpack ps = Inr p"
  by (cases ps rule: unpack.cases) simp_all

lemma unpack_Inr_nth:
  assumes "unpack ps = Inr p"
  shows "ps = [beta p, betahat p, delta p, gamma p, phi p, alpha p, sigma p]"
  using assms by (cases ps rule: unpack.cases) auto

lemma unpack_Inr_fields:
  assumes "unpack ps = Inr p"
  shows "beta p = ps ! 0" "betahat p = ps ! 1" "delta p = ps ! 2" "gamma p = ps ! 3"
    "phi p = ps ! 4" "alpha p = ps ! 5" "sigma p = ps ! 6"
  by (subst unpack_Inr_nth [OF assms], simp)+

lemma estimate_InrD:
  assumes "estimate L dt = Inr r"
  shows "res r = minimize_x L (\<lambda>ps. negloglike (norm_cdf L) ps (mle_args dt)) par_init"
    and "\<exists>v. negloglike (norm_cdf L) (res r) (mle_args dt) = Inr v"
    and "hessian r = autograd_hessian L (\<lambda>ps. negloglike (norm_cdf L) ps (mle_args dt)) (res r)"
    and "linalg_inv L (hessian r) = Inr (hess_inv r)"
    and "K r = length (res r)"
    and "G r = outer_sum (K r) (gradients_indiv (K r) dt (gradients L (res r) dt))"
    and "Nobs r = length dt"
    and "Nindiv r = length (remdups (map wid dt))"
    and "adj_factor (Nobs r) (K r) (Nindiv r) = Inr (adj r)"
    and "varcov_estimates r = smult (adj r) (matmul (K r) (matmul (K r) (hess_inv r) (G r)) (hess_inv r))"
    and "se_cluster r = map fsqrt (diag (K r) (varcov_estimates r))"
  using assms by (auto simp: estimate_def Let_def split: sum.splits)

lemma negloglike_Inr_iff: "(\<exists>v. negloglike cdf ps rows = Inr v) \<longleftrightarrow> length ps = 7"
  using unpack_length [of ps] unpack_Inr_length [of ps]
  by (auto simp: negloglike_def split: sum.splits)

lemma estimate_InrI:
  assumes "length (minimize_x L (\<lambda>ps. negloglike (norm_cdf L) ps (mle_args dt)) par_init) = 7"
    and "linalg_inv L (autograd_hessian L (\<lambda>ps. negloglike (norm_cdf L) ps (mle_args dt))
           (minimize_x L (\<lambda>ps. negloglike (norm_cdf L) ps (mle_args dt)) par_init)) = Inr Hi"
    and "adj_factor (length dt) 7 (length (remdups (map wid dt))) = Inr a"
  shows "\<exists>r. estimate L dt = Inr r"
proof -
  obtain v where "negloglike (norm_cdf L)
      (minimize_x L (\<lambda>ps. negloglike (norm_cdf L) ps (mle_args dt)) par_init) (mle_args dt) = Inr v"
    using assms(1) negloglike_Inr_iff by blast
  then show ?thesis
    using assms by (simp add: estimate_def Let_def)
qed

lemma negloglike_Inr_length: "negloglike cdf ps rows = Inr v \<Longrightarrow> length ps = 7"
  by (auto simp: negloglike_def split: sum.splits dest: unpack_Inr_length)

lemma adj_factor_gt_one:
  assumes "n < N" "1 < n" "1 < Ni"
  shows "adj_factor N n Ni = Inr ((real N - 1) / (real N - real n) * (real Ni / (real Ni - 1)))"
    and "1 < (real N - 1) / (real N - real n) * (real Ni / (real Ni - 1))"
proof -
  show "adj_factor N n Ni = Inr ((real N - 1) / (real N - real n) * (real Ni / (real Ni - 1)))"
    using assms by (simp add: adj_factor_def)
  have a: "1 < (real N - 1) / (real N - real n)" using assms by simp
  have b: "1 < real Ni / (real Ni - 1)" using assms by simp
  show "1 < (real N - 1) / (real N - real n) * (real Ni / (real Ni - 1))"
    using a b by (metis less_1_mult)
qed

subsection \<open>Matrices and sums over clusters\<close>

lemma matmul_nth:
  "i < n \<Longrightarrow> j < n \<Longrightarrow> matmul n A B ! i ! j = (\<Sum>k<n. A ! i ! k * B ! k ! j)"
  by (simp add: matmul_def interv_sum_list_conv_sum_set_nat atLeast0LessThan)

lemma smult_matmul_nth:
  "i < n \<Longrightarrow> j < n \<Longrightarrow> smult c (matmul n A B) ! i ! j = c * matmul n A B ! i ! j"
  by (simp add: smult_def matmul_def)

lemma outer_sum_nth:
  "a < n \<Longrightarrow> b < n \<Longrightarrow> outer_sum n gi ! a ! b = (\<Sum>g\<leftarrow>gi. g ! a * g ! b)"
  by (simp add: outer_sum_def)

lemma sum_list_filter_upt:
  "sum_list (map f (filter P [0..<N])) = (\<Sum>i | i < N \<and> P i. f i)"
proof -
  have "sum_list (map f (filter P [0..<N])) = sum f (set (filter P [0..<N]))"
    by (rule sum_list_distinct_conv_sum_set) simp
  also have "set (filter P [0..<N]) = {i. i < N \<and> P i}"
    by auto
  finally show ?thesis .
qed

lemma group_sum_nth:
  "k < n \<Longrightarrow> group_sum n dt gs w ! k = (\<Sum>i | i < length dt \<and> wid (dt ! i) = w. gs ! i ! k)"
  by (simp add: group_sum_def sum_list_filter_upt)

lemma outer_sum_clusters:
  assumes "a < n" and "b < n"
  shows "outer_sum n (gradients_indiv n dt gs) ! a ! b =
     (\<Sum>c\<in>wid ` set dt. (\<Sum>i | i < length dt \<and> wid (dt ! i) = c. gs ! i ! a)
                        * (\<Sum>i | i < length dt \<and> wid (dt ! i) = c. gs ! i ! b))"
proof -
  let ?ids = "sort (remdups (map wid dt))"
  have "outer_sum n (gradients_indiv n dt gs) ! a ! b =
      (\<Sum>w\<leftarrow>?ids. group_sum n dt gs w ! a * group_sum n dt gs w ! b)"
    using assms by (simp add: outer_sum_nth gradients_indiv_def comp_def)
  also have "\<dots> = (\<Sum>w\<in>set ?ids. group_sum n dt gs w ! a * group_sum n dt gs w ! b)"
    by (rule sum_list_distinct_conv_sum_set) simp
  also have "set ?ids = wid ` set dt"
    by simp
  finally show ?thesis
    using assms by (simp add: group_sum_nth)
qed

lemma matmul_eq_identityD:
  assumes "matmul n A B = identity n" and "i < n" and "j < n"
  shows "(\<Sum>k<n. A ! i ! k * B ! k ! j) = (if i = j then 1 else 0)"
proof -
  have "matmul n A B ! i ! j = identity n ! i ! j"
    using assms(1) by simp
  then show ?thesis
    using assms(2,3) by (simp add: matmul_nth identity_def)
qed

lemma mat_neg_nth: "i < n \<Longrightarrow> j < n \<Longrightarrow> mat_neg n A ! i ! j = - (A ! i ! j)"
  by (simp add: mat_neg_def)

lemma inverse_of_negation:
  assumes ab: "is_inverse n A B" and ac: "is_inverse n (mat_neg n A) C"
    and i: "i < n" and j: "j < n"
  shows "C ! i ! j = - (B ! i ! j)"
proof -
  have ba: "\<And>i k. i < n \<Longrightarrow> k < n \<Longrightarrow> (\<Sum>l<n. B ! i ! l * A ! l ! k) = (if i = k then 1 else 0)"
    using ab by (simp add: is_inverse_def matmul_eq_identityD)
  have nac: "\<And>l j. l < n \<Longrightarrow> j < n \<Longrightarrow> (\<Sum>k<n. A ! l ! k * C ! k ! j) = - (if l = j then 1 else 0)"
  proof -
    fix l j assume l: "l < n" and j: "j < n"
    have "(\<Sum>k<n. mat_neg n A ! l ! k * C ! k ! j) = (if l = j then 1 else 0)"
      using ac l j by (simp add: is_inverse_def matmul_eq_identityD)
    moreover have "(\<Sum>k<n. mat_neg n A ! l ! k * C ! k ! j) = - (\<Sum>k<n. A ! l ! k * C ! k ! j)"
      using l by (simp add: mat_neg_nth sum_negf)
    ultimately show "(\<Sum>k<n. A ! l ! k * C ! k ! j) = - (if l = j then 1 else 0)"
      by simp
  qed
  have "(\<Sum>k<n. (if i = k then 1 else 0) * C ! k ! j) = (\<Sum>k<n. if i = k then C ! k ! j else 0)"
    by (intro sum.cong refl) simp
  then have "C ! i ! j = (\<Sum>k<n. (if i = k then 1 else 0) * C ! k ! j)"
    using i by (simp add: sum.delta')
  also have "\<dots> = (\<Sum>k<n. (\<Sum>l<n. B ! i ! l * A ! l ! k) * C ! k ! j)"
    using i by (intro sum.cong refl) (simp add: ba)
  also have "\<dots> = (\<Sum>k<n. \<Sum>l<n. B ! i ! l * (A ! l ! k * C ! k ! j))"
    by (simp add: sum_distrib_right mult.assoc)
  also have "\<dots> = (\<Sum>l<n. \<Sum>k<n. B ! i ! l * (A ! l ! k * C ! k ! j))"
    by (rule sum.swap)
  also have "\<dots> = (\<Sum>l<n. B ! i ! l * (\<Sum>k<n. A ! l ! k * C ! k ! j))"
    by (simp add: sum_distrib_left)
  also have "\<dots> = (\<Sum>l<n. B ! i ! l * - (if l = j then 1 else 0))"
    using j by (intro sum.cong refl) (simp add: nac)
  also have "\<dots> = (\<Sum>l<n. if l = j then - (B ! i ! l) else 0)"
    by (intro sum.cong refl) simp
  also have "\<dots> = - (B ! i ! j)"
    using j by (simp add: sum.delta)
  finally show ?thesis .
qed

lemma sandwich_sign:
  assumes "\<And>i j. i < n \<Longrightarrow> j < n \<Longrightarrow> C ! i ! j = - (B ! i ! j)" and "i < n" and "j < n"
  shows "matmul n (matmul n C M) C ! i ! j = matmul n (matmul n B M) B ! i ! j"
  using assms by (simp add: matmul_nth sum_negf)

subsection \<open>The sign of the derivatives\<close>

text \<open>
  The log-likelihood is the negation of \<^verbatim>\<open>negloglike\<close>. Negating a function negates
  each partial derivative, and a partial derivative is unique; so the gradient (score) and
  the Hessian of the log-likelihood are the negations of what \<^verbatim>\<open>autograd.grad\<close> and
  \<^verbatim>\<open>autograd.hessian\<close> return for \<^verbatim>\<open>negloglike\<close>.
\<close>

lemma partial_derivative_uminus:
  "partial_derivative f x i d \<Longrightarrow> partial_derivative (\<lambda>y. - f y) x i (- d)"
  unfolding partial_derivative_def by (rule DERIV_minus)

lemma partial_derivative_unique:
  "partial_derivative f x i d \<Longrightarrow> partial_derivative f x i d' \<Longrightarrow> d = d'"
  unfolding partial_derivative_def by (rule DERIV_unique)

subsection \<open>The likelihood\<close>

lemma clean_dummies:
  assumes "x \<in> set (clean dta ind_keep)"
  shows "ind_effort10 x = (if effort x = 10 then 1 else 0)"
    and "ind_effort110 x = (if effort x = 110 then 1 else 0)"
  using assms by (auto simp: clean_def prepare_def)

lemma prob_branches:
  assumes "ind_effort10 a = (if effort a = 10 then 1 else 0)"
    and "ind_effort110 a = (if effort a = 110 then 1 else 0)"
  shows "prob cdf p a =
     (case predchoice p a of
        None \<Rightarrow> None
      | Some e \<Rightarrow>
          if sigma p \<le> 0 then None
          else Some (if ind_effort10 a = 1 then 1 - cdf ((e - effort a) / sigma p)
                     else if ind_effort110 a = 1 then cdf ((e - effort a) / sigma p)
                     else exp (- (((effort a - e) / sigma p)\<^sup>2) / 2) / sqrt (2 * pi) / sigma p))"
  using assms by (auto simp: prob_def norm_pdf_def fdiv_def split: option.splits)

lemma truncate_fields [simp]:
  "netdistance (args.truncate x) = netdistance x"
  "wage (args.truncate x) = wage x"
  "today (args.truncate x) = today x"
  "prediction (args.truncate x) = prediction x"
  "pb (args.truncate x) = pb x"
  "effort (args.truncate x) = effort x"
  "ind_effort10 (args.truncate x) = ind_effort10 x"
  "ind_effort110 (args.truncate x) = ind_effort110 x"
  by (simp_all add: args.truncate_def)

lemma fpow_zero [simp]: "fpow x 0 = Some 1"
  by (simp add: fpow_def)

lemma predchoice_beta_irrelevant:
  assumes "today a = 0"
    and "betahat p = betahat p'" "delta p = delta p'" "gamma p = gamma p'"
    and "phi p = phi p'" "alpha p = alpha p'"
  shows "predchoice p a = predchoice p' a"
  using assms by (simp add: predchoice_def)

lemma clamp_eq: "clamp x = (if x = 0 then 1 / 10000 else if x = 1 then 1 - 1 / 10000 else x)"
  by (simp add: clamp_def Let_def)

lemma clamp_pos: "0 \<le> x \<Longrightarrow> x \<le> 1 \<Longrightarrow> 0 < clamp x \<and> clamp x < 1"
  by (simp add: clamp_eq)

lemma those_flog_clamp:
  "\<forall>x\<in>set probs. 0 \<le> x \<and> x \<le> 1 \<Longrightarrow>
     those (map (\<lambda>x. flog (clamp x)) probs) = Some (map (\<lambda>x. ln (clamp x)) probs)"
  by (induction probs) (simp_all add: flog_def clamp_pos)

subsection \<open>The sample inputs evaluated\<close>

lemma sample_estimate:
  "\<exists>r. estimate sample_library (clean sample_dta [0, 1]) = Inr r"
proof -
  have l: "length (clean sample_dta [0, 1]) = 9" by code_simp
  have c: "length (remdups (map wid (clean sample_dta [0, 1]))) = 2" by code_simp
  show ?thesis
    by (rule estimate_InrI [where Hi = "smult (1/2) (identity 7)" and a = "8 / 2 * 2 / 1"])
       (simp_all add: sample_library_def par_init_def l c adj_factor_def)
qed

lemma sample_gradients:
  "gradients sample_library par_init (clean sample_dta [0, 1]) = replicate 9 par_init"
proof -
  have l: "length (clean sample_dta [0, 1]) = 9" by code_simp
  have "gradients sample_library par_init (clean sample_dta [0, 1])
      = map (\<lambda>x. par_init) (clean sample_dta [0, 1])"
    by (simp add: gradients_def sample_library_def)
  also have "\<dots> = replicate 9 par_init"
    using l by (simp add: map_replicate_const)
  finally show ?thesis .
qed

lemma sample_G11:
  "outer_sum 7 (gradients_indiv 7 (clean sample_dta [0, 1]) (replicate 9 par_init)) ! 1 ! 1 = 41"
  by code_simp


lemma sample_estimate_fields:
  assumes "estimate sample_library (clean sample_dta [0, 1]) = Inr r"
  shows "res r = par_init" and "K r = 7" and "adj r = 8"
    and "hessian r = smult 2 (identity 7)" and "hess_inv r = smult (1 / 2) (identity 7)"
    and "G r = outer_sum 7 (gradients_indiv 7 (clean sample_dta [0, 1]) (replicate 9 par_init))"
proof -
  note d = estimate_InrD [OF assms]
  have l: "length (clean sample_dta [0, 1]) = 9" by code_simp
  have c: "length (remdups (map wid (clean sample_dta [0, 1]))) = 2" by code_simp
  show 1: "res r = par_init"
    using d(1) by (simp add: sample_library_def)
  show 2: "K r = 7"
    using d(5) 1 by (simp add: par_init_def)
  show "adj r = 8"
    using d(9) d(7) d(8) 2 l c by (simp add: adj_factor_def)
  show 3: "hessian r = smult 2 (identity 7)"
    using d(3) by (simp add: sample_library_def)
  show "hess_inv r = smult (1 / 2) (identity 7)"
    using d(4) 3 by (simp add: sample_library_def)
  show "G r = outer_sum 7 (gradients_indiv 7 (clean sample_dta [0, 1]) (replicate 9 par_init))"
    using d(6) 1 2 by (simp add: sample_gradients)
qed

lemma sample_inverse:
  "is_inverse 7 (smult 2 (identity 7)) (smult (1 / 2) (identity 7))"
  by code_simp

lemma sample_inverse_neg:
  "is_inverse 7 (mat_neg 7 (smult 2 (identity 7))) (smult (- 1 / 2) (identity 7))"
  by code_simp

lemma sample_sandwich11:
  "matmul 7 (matmul 7 (smult (- 1 / 2) (identity 7))
       (outer_sum 7 (gradients_indiv 7 (clean sample_dta [0, 1]) (replicate 9 par_init))))
     (smult (- 1 / 2) (identity 7)) ! 1 ! 1 = 41 / 4"
  by code_simp

section \<open>The claims\<close>

subsection \<open>Standard errors\<close>

text \<open>
  Claim C1. In a completed estimation \<open>r\<close>, \<open>res\<close> is what the minimiser returned
  from \<open>par_init\<close>, \<open>hessian\<close> is what \<^verbatim>\<open>autograd.hessian(negloglike)\<close>
  returned at \<open>res\<close>, and \<open>hess_inv\<close> is what \<^verbatim>\<open>np.linalg.inv\<close> returned for it.
  The Hessian of the log-likelihood is the negation of \<open>hessian\<close>. If \<open>hess_inv\<close> is
  the inverse of \<open>hessian\<close> and \<open>Hl_inv\<close> is the inverse of the Hessian of the
  log-likelihood, then there are \<open>K\<close> standard errors and the \<open>i\<close>-th is the square
  root of the \<open>i\<close>-th diagonal entry of \<open>adj \<cdot> (Hl_inv \<cdot> G \<cdot> Hl_inv)\<close>
  (the sandwich does not see the sign of the Hessian).
\<close>

theorem sandwich_standard_errors:
  assumes "estimate L dt = Inr r"
    and "is_inverse (K r) (hessian r) (hess_inv r)"
    and "is_inverse (K r) (mat_neg (K r) (hessian r)) Hl_inv"
    and "i < K r"
  shows "res r = minimize_x L (\<lambda>ps. negloglike (norm_cdf L) ps (mle_args dt)) par_init
    \<and> hessian r = autograd_hessian L (\<lambda>ps. negloglike (norm_cdf L) ps (mle_args dt)) (res r)
    \<and> linalg_inv L (hessian r) = Inr (hess_inv r)
    \<and> length (se_cluster r) = K r
    \<and> se_cluster r ! i = fsqrt (adj r * matmul (K r) (matmul (K r) Hl_inv (G r)) Hl_inv ! i ! i)"
proof -
  note d = estimate_InrD [OF assms(1)]
  have n: "\<And>i j. i < K r \<Longrightarrow> j < K r \<Longrightarrow> Hl_inv ! i ! j = - (hess_inv r ! i ! j)"
    using assms(2,3) by (rule inverse_of_negation)
  have s: "matmul (K r) (matmul (K r) Hl_inv (G r)) Hl_inv ! i ! i
      = matmul (K r) (matmul (K r) (hess_inv r) (G r)) (hess_inv r) ! i ! i"
    using n assms(4) assms(4) by (rule sandwich_sign)
  have "se_cluster r ! i = fsqrt (varcov_estimates r ! i ! i)"
    using assms(4) by (simp add: d(11) diag_def)
  also have "varcov_estimates r ! i ! i
      = adj r * matmul (K r) (matmul (K r) (hess_inv r) (G r)) (hess_inv r) ! i ! i"
    using assms(4) by (simp add: d(10) smult_matmul_nth)
  finally have "se_cluster r ! i
      = fsqrt (adj r * matmul (K r) (matmul (K r) Hl_inv (G r)) Hl_inv ! i ! i)"
    by (simp add: s)
  moreover have "length (se_cluster r) = K r"
    by (simp add: d(11) diag_def)
  ultimately show ?thesis
    using d(1,3,4) by simp
qed

theorem sandwich_standard_errors_witness:
  "\<exists>r. estimate sample_library (clean sample_dta [0, 1]) = Inr r
     \<and> is_inverse (K r) (hessian r) (hess_inv r)
     \<and> is_inverse (K r) (mat_neg (K r) (hessian r)) (smult (- 1 / 2) (identity 7))
     \<and> 1 < K r
     \<and> se_cluster r ! 1 = Some (sqrt 82)"
proof -
  obtain r where r: "estimate sample_library (clean sample_dta [0, 1]) = Inr r"
    using sample_estimate ..
  note f = sample_estimate_fields [OF r]
  have k: "1 < K r" using f(2) by simp
  have 1: "is_inverse (K r) (hessian r) (hess_inv r)"
    unfolding f by (rule sample_inverse)
  have 2: "is_inverse (K r) (mat_neg (K r) (hessian r)) (smult (- 1 / 2) (identity 7))"
    unfolding f by (rule sample_inverse_neg)
  have "se_cluster r ! 1 = fsqrt (adj r * matmul (K r) (matmul (K r) (smult (- 1 / 2) (identity 7)) (G r))
       (smult (- 1 / 2) (identity 7)) ! 1 ! 1)"
    using sandwich_standard_errors [OF r 1 2 k] by blast
  also have "\<dots> = Some (sqrt 82)"
    unfolding f sample_sandwich11 by (simp add: fsqrt_def)
  finally show ?thesis
    using r 1 2 k by blast
qed

text \<open>
  Claim C2. In a completed estimation, one gradient of \<^verbatim>\<open>negloglike\<close> is computed per
  row, at \<open>res\<close> and on that row alone; the score of a row is its negation. \<open>G\<close> is
  the sum, over the distinct values \<open>c\<close> of \<open>wid\<close>, of the outer product with itself
  of the sum of the scores of the rows whose \<open>wid\<close> is \<open>c\<close>: entry \<open>(a, b)\<close> is
  the sum over \<open>c\<close> of the product of the \<open>a\<close>-th and the \<open>b\<close>-th entry of that
  cluster sum.
\<close>

theorem cluster_outer_products:
  assumes "estimate L dt = Inr r" and "a < K r" and "b < K r"
  shows "length (gradients L (res r) dt) = length dt
    \<and> (\<forall>i<length dt. gradients L (res r) dt ! i
          = autograd_grad L (\<lambda>ps. negloglike (norm_cdf L) ps [args.truncate (dt ! i)]) (res r))
    \<and> G r ! a ! b =
        (\<Sum>c\<in>wid ` set dt.
           (\<Sum>i | i < length dt \<and> wid (dt ! i) = c. - (gradients L (res r) dt ! i ! a))
           * (\<Sum>i | i < length dt \<and> wid (dt ! i) = c. - (gradients L (res r) dt ! i ! b)))"
proof -
  note d = estimate_InrD [OF assms(1)]
  have "G r ! a ! b =
     (\<Sum>c\<in>wid ` set dt.
        (\<Sum>i | i < length dt \<and> wid (dt ! i) = c. gradients L (res r) dt ! i ! a)
        * (\<Sum>i | i < length dt \<and> wid (dt ! i) = c. gradients L (res r) dt ! i ! b))"
    unfolding d(6) using assms(2,3) by (rule outer_sum_clusters)
  then show ?thesis
    by (simp add: sum_negf gradients_def)
qed

theorem cluster_outer_products_witness:
  "\<exists>r. estimate sample_library (clean sample_dta [0, 1]) = Inr r \<and> 1 < K r
     \<and> G r ! 1 ! 1 = 41
     \<and> (\<Sum>c\<in>wid ` set (clean sample_dta [0, 1]).
          (\<Sum>i | i < length (clean sample_dta [0, 1]) \<and> wid (clean sample_dta [0, 1] ! i) = c.
             - (gradients sample_library (res r) (clean sample_dta [0, 1]) ! i ! 1))
          * (\<Sum>i | i < length (clean sample_dta [0, 1]) \<and> wid (clean sample_dta [0, 1] ! i) = c.
             - (gradients sample_library (res r) (clean sample_dta [0, 1]) ! i ! 1))) = 41"
proof -
  obtain r where r: "estimate sample_library (clean sample_dta [0, 1]) = Inr r"
    using sample_estimate ..
  note f = sample_estimate_fields [OF r]
  have k: "1 < K r" using f(2) by simp
  have g: "G r ! 1 ! 1 = 41"
    unfolding f(6) by (rule sample_G11)
  show ?thesis
    using cluster_outer_products [OF r k k] r k g by (intro exI [of _ r]) simp
qed

subsection \<open>The likelihood function\<close>

text \<open>
  Claim C3. For every row of the cleaned table and every parameter record, the likelihood
  contribution \<open>prob\<close> (before the clamping of claim C5) is, where the predicted effort
  \<open>e\<close> is a finite number and \<open>sigma\<close> is positive: \<open>1 - cdf ((e - effort)/sigma)\<close>
  if \<open>ind_effort10 = 1\<close>, \<open>cdf ((e - effort)/sigma)\<close> if \<open>ind_effort110 = 1\<close>, and
  otherwise the density at \<open>effort\<close> of the normal distribution with mean \<open>e\<close> and
  standard deviation \<open>sigma\<close>.
\<close>

theorem tobit_branches:
  assumes "x \<in> set (clean dta ind_keep)" and "a = args.truncate x"
  shows "prob cdf p a =
     (case predchoice p a of
        None \<Rightarrow> None
      | Some e \<Rightarrow>
          if sigma p \<le> 0 then None
          else Some (if ind_effort10 a = 1 then 1 - cdf ((e - effort a) / sigma p)
                     else if ind_effort110 a = 1 then cdf ((e - effort a) / sigma p)
                     else exp (- (((effort a - e) / sigma p)\<^sup>2) / 2) / sqrt (2 * pi) / sigma p))"
  using clean_dummies [OF assms(1)] assms(2) by (intro prob_branches) simp_all

theorem tobit_branches_witness:
  "\<lparr>netdistance = 0, wage = 1 / 10, today = 1, prediction = 0, pb = 1,
     effort = 10, ind_effort10 = 1, ind_effort110 = 0, wid = 0\<rparr> \<in> set (clean sample_dta [0, 1])
   \<and> prob sample_cdf \<lparr>beta = 4 / 5, betahat = 1, delta = 1, gamma = 2, phi = 500, alpha = 7, sigma = 40\<rparr>
        \<lparr>netdistance = 0, wage = 1 / 10, today = 1, prediction = 0, pb = 1,
         effort = 10, ind_effort10 = 1, ind_effort110 = 0\<rparr> = Some (17 / 80)"
proof -
  let ?x = "\<lparr>netdistance = 0, wage = 1 / 10, today = 1, prediction = 0, pb = 1,
     effort = 10, ind_effort10 = 1, ind_effort110 = 0, wid = 0\<rparr>"
  let ?a = "\<lparr>netdistance = 0, wage = 1 / 10, today = 1, prediction = 0, pb = 1,
     effort = 10, ind_effort10 = 1, ind_effort110 = 0\<rparr>"
  let ?p = "\<lparr>beta = 4 / 5, betahat = 1, delta = 1, gamma = 2, phi = 500, alpha = 7, sigma = 40\<rparr>"
  have m: "?x \<in> set (clean sample_dta [0, 1])"
    by code_simp
  have t: "?a = args.truncate ?x"
    by (simp add: args.truncate_def)
  have e: "predchoice ?p ?a = Some 33"
    by (simp add: predchoice_def fpow_def fdiv_def)
  show ?thesis
    using tobit_branches [OF m t, of sample_cdf ?p] m
    by (simp add: e sample_cdf_def)
qed

text \<open>
  Claim C4. Two parameter vectors that agree in every entry but the first (\<open>beta\<close>)
  give, on every row with \<open>today = 0\<close>, the same predicted effort, the same likelihood
  contribution and the same value of \<^verbatim>\<open>negloglike\<close> on that row; and there are such
  vectors with different \<open>beta\<close> and a row with \<open>today = 1\<close> on which the predicted
  efforts differ.
\<close>

theorem present_bias_only_today:
  "(\<forall>ps ps' p p' a. unpack ps = Inr p \<and> unpack ps' = Inr p' \<and> (\<forall>i<7. i \<noteq> 0 \<longrightarrow> ps ! i = ps' ! i)
       \<and> today a = 0 \<longrightarrow>
       predchoice p a = predchoice p' a \<and> prob cdf p a = prob cdf p' a
       \<and> negloglike cdf ps [a] = negloglike cdf ps' [a])
   \<and> (\<exists>ps ps' p p' a. unpack ps = Inr p \<and> unpack ps' = Inr p' \<and> (\<forall>i<7. i \<noteq> 0 \<longrightarrow> ps ! i = ps' ! i)
       \<and> today a = 1 \<and> ps ! 0 \<noteq> ps' ! 0 \<and> predchoice p a \<noteq> predchoice p' a)"
proof (intro conjI allI impI)
  fix ps ps' p p' and a :: args
  assume h: "unpack ps = Inr p \<and> unpack ps' = Inr p' \<and> (\<forall>i<7. i \<noteq> 0 \<longrightarrow> ps ! i = ps' ! i)
       \<and> today a = 0"
  have n: "ps ! 1 = ps' ! 1" "ps ! 2 = ps' ! 2" "ps ! 3 = ps' ! 3" "ps ! 4 = ps' ! 4"
    "ps ! 5 = ps' ! 5" "ps ! 6 = ps' ! 6"
    using h by simp_all
  have f: "betahat p = betahat p'" "delta p = delta p'" "gamma p = gamma p'"
    "phi p = phi p'" "alpha p = alpha p'" "sigma p = sigma p'"
    using n unpack_Inr_fields [of ps p] unpack_Inr_fields [of ps' p'] h by simp_all
  show e: "predchoice p a = predchoice p' a"
    using h f by (intro predchoice_beta_irrelevant) simp_all
  show q: "prob cdf p a = prob cdf p' a"
    using e f by (simp add: prob_def)
  show "negloglike cdf ps [a] = negloglike cdf ps' [a]"
    using h q by (simp add: negloglike_def)
next
  let ?a = "\<lparr>netdistance = 0, wage = 1 / 10, today = 1, prediction = 0, pb = 0,
     effort = 50, ind_effort10 = 0, ind_effort110 = 0\<rparr>"
  let ?p = "\<lparr>beta = 4 / 5, betahat = 1, delta = 1, gamma = 2, phi = 500, alpha = 7, sigma = 40\<rparr>"
  let ?p' = "\<lparr>beta = 1 / 2, betahat = 1, delta = 1, gamma = 2, phi = 500, alpha = 7, sigma = 40\<rparr>"
  have 1: "unpack [4 / 5, 1, 1, 2, 500, 7, 40] = Inr ?p" by simp
  have 2: "unpack [1 / 2, 1, 1, 2, 500, 7, 40] = Inr ?p'" by simp
  have 3: "\<forall>i<7. i \<noteq> 0 \<longrightarrow> [4 / 5, 1, 1, 2, 500, 7, 40::real] ! i = [1 / 2, 1, 1, 2, 500, 7, 40] ! i"
    by (simp add: nth_Cons split: nat.split)
  have 4: "predchoice ?p ?a = Some 40" "predchoice ?p' ?a = Some 25"
    by (simp_all add: predchoice_def fpow_def fdiv_def)
  have 5: "predchoice ?p ?a \<noteq> predchoice ?p' ?a"
    unfolding 4 by simp
  have 6: "today ?a = 1" "[4 / 5, 1, 1, 2, 500, 7, 40::real] ! 0 \<noteq> [1 / 2, 1, 1, 2, 500, 7, 40] ! 0"
    by simp_all
  show "\<exists>ps ps' p p' a. unpack ps = Inr p \<and> unpack ps' = Inr p' \<and> (\<forall>i<7. i \<noteq> 0 \<longrightarrow> ps ! i = ps' ! i)
       \<and> today a = 1 \<and> ps ! 0 \<noteq> ps' ! 0 \<and> predchoice p a \<noteq> predchoice p' a"
    using 1 2 3 5 6
    by (intro exI [of _ "[4 / 5, 1, 1, 2, 500, 7, 40]"] exI [of _ "[1 / 2, 1, 1, 2, 500, 7, 40]"]
          exI [of _ ?p] exI [of _ ?p'] exI [of _ ?a] conjI)
qed

theorem present_bias_only_today_witness:
  "unpack [4 / 5, 1, 1, 2, 500, 7, 40]
     = Inr \<lparr>beta = 4 / 5, betahat = 1, delta = 1, gamma = 2, phi = 500, alpha = 7, sigma = 40\<rparr>
   \<and> unpack [1 / 2, 1, 1, 2, 500, 7, 40]
     = Inr \<lparr>beta = 1 / 2, betahat = 1, delta = 1, gamma = 2, phi = 500, alpha = 7, sigma = 40\<rparr>
   \<and> predchoice \<lparr>beta = 4 / 5, betahat = 1, delta = 1, gamma = 2, phi = 500, alpha = 7, sigma = 40\<rparr>
        \<lparr>netdistance = 6, wage = 1 / 10, today = 0, prediction = 1, pb = 1,
         effort = 50, ind_effort10 = 0, ind_effort110 = 0\<rparr>
     = predchoice \<lparr>beta = 1 / 2, betahat = 1, delta = 1, gamma = 2, phi = 500, alpha = 7, sigma = 40\<rparr>
        \<lparr>netdistance = 6, wage = 1 / 10, today = 0, prediction = 1, pb = 1,
         effort = 50, ind_effort10 = 0, ind_effort110 = 0\<rparr>"
proof -
  let ?a = "\<lparr>netdistance = 6, wage = 1 / 10, today = 0, prediction = 1, pb = 1,
         effort = 50, ind_effort10 = 0, ind_effort110 = 0\<rparr>"
  let ?p = "\<lparr>beta = 4 / 5, betahat = 1, delta = 1, gamma = 2, phi = 500, alpha = 7, sigma = 40\<rparr>"
  let ?p' = "\<lparr>beta = 1 / 2, betahat = 1, delta = 1, gamma = 2, phi = 500, alpha = 7, sigma = 40\<rparr>"
  have 1: "unpack [4 / 5, 1, 1, 2, 500, 7, 40] = Inr ?p" by simp
  have 2: "unpack [1 / 2, 1, 1, 2, 500, 7, 40] = Inr ?p'" by simp
  have 3: "\<forall>i<7. i \<noteq> 0 \<longrightarrow> [4 / 5, 1, 1, 2, 500, 7, 40::real] ! i = [1 / 2, 1, 1, 2, 500, 7, 40] ! i"
    by (simp add: nth_Cons split: nat.split)
  have 4: "today ?a = 0" by simp
  have "predchoice ?p ?a = predchoice ?p' ?a"
    using present_bias_only_today [of sample_cdf, THEN conjunct1, rule_format,
        of "[4 / 5, 1, 1, 2, 500, 7, 40]" ?p "[1 / 2, 1, 1, 2, 500, 7, 40]" ?p' ?a] 1 2 3 4
    by blast
  then show ?thesis using 1 2 by simp
qed

text \<open>
  Claim C5. The clamping replaces exactly 0 by \<open>1/10000\<close> and exactly 1 by
  \<open>1 - 1/10000\<close> and leaves every other value alone. If the parameter vector unpacks
  and every per-row likelihood is a number in \<open>[0, 1]\<close>, then every argument of the
  logarithm is strictly positive, no logarithm fails, and \<^verbatim>\<open>negloglike\<close> returns the
  finite number \<open>- \<Sum> ln (clamp prob)\<close>.
\<close>

theorem clamp_guards_log:
  assumes "unpack ps = Inr p"
    and "those (map (prob cdf p) rows) = Some probs"
    and "\<forall>x\<in>set probs. 0 \<le> x \<and> x \<le> 1"
  shows "(\<forall>x. clamp x = (if x = 0 then 1 / 10000 else if x = 1 then 1 - 1 / 10000 else x))
    \<and> (\<forall>x\<in>set probs. 0 < clamp x \<and> flog (clamp x) = Some (ln (clamp x)))
    \<and> negloglike cdf ps rows = Inr (Some (- (\<Sum>x\<leftarrow>probs. ln (clamp x))))"
proof -
  have 1: "\<forall>x\<in>set probs. 0 < clamp x \<and> flog (clamp x) = Some (ln (clamp x))"
    using assms(3) by (simp add: clamp_pos flog_def)
  have 2: "negloglike cdf ps rows = Inr (Some (- (\<Sum>x\<leftarrow>probs. ln (clamp x))))"
    using assms by (simp add: negloglike_def those_flog_clamp)
  show ?thesis using 1 2 clamp_eq by blast
qed

theorem clamp_guards_log_witness:
  "unpack par_init = Inr \<lparr>beta = 4 / 5, betahat = 1, delta = 1, gamma = 2, phi = 500, alpha = 7, sigma = 40\<rparr>
   \<and> those (map (prob sample_cdf \<lparr>beta = 4 / 5, betahat = 1, delta = 1, gamma = 2, phi = 500, alpha = 7, sigma = 40\<rparr>)
        [\<lparr>netdistance = 0, wage = 1 / 10, today = 1, prediction = 0, pb = 1,
          effort = 10, ind_effort10 = 1, ind_effort110 = 0\<rparr>,
         \<lparr>netdistance = 1, wage = 1 / 10, today = 1, prediction = 0, pb = 0,
          effort = 110, ind_effort10 = 0, ind_effort110 = 1\<rparr>]) = Some [17 / 80, 0]
   \<and> negloglike sample_cdf par_init
        [\<lparr>netdistance = 0, wage = 1 / 10, today = 1, prediction = 0, pb = 1,
          effort = 10, ind_effort10 = 1, ind_effort110 = 0\<rparr>,
         \<lparr>netdistance = 1, wage = 1 / 10, today = 1, prediction = 0, pb = 0,
          effort = 110, ind_effort10 = 0, ind_effort110 = 1\<rparr>]
      = Inr (Some (- (ln (17 / 80) + ln (1 / 10000))))"
proof -
  let ?p = "\<lparr>beta = 4 / 5, betahat = 1, delta = 1, gamma = 2, phi = 500, alpha = 7, sigma = 40\<rparr>"
  let ?a = "\<lparr>netdistance = 0, wage = 1 / 10, today = 1, prediction = 0, pb = 1,
          effort = 10, ind_effort10 = 1, ind_effort110 = 0\<rparr>"
  let ?b = "\<lparr>netdistance = 1, wage = 1 / 10, today = 1, prediction = 0, pb = 0,
          effort = 110, ind_effort10 = 0, ind_effort110 = 1\<rparr>"
  have u: "unpack par_init = Inr ?p"
    by (simp add: par_init_def)
  have e: "predchoice ?p ?a = Some 33" "predchoice ?p ?b = Some 40"
    by (simp_all add: predchoice_def fpow_def fdiv_def)
  have q: "prob sample_cdf ?p ?a = Some (17 / 80)" "prob sample_cdf ?p ?b = Some 0"
    by (simp_all add: prob_def e norm_pdf_def fdiv_def sample_cdf_def)
  have t: "those (map (prob sample_cdf ?p) [?a, ?b]) = Some [17 / 80, 0]"
    by (simp add: q)
  have r: "\<forall>x\<in>set [17 / 80, 0::real]. 0 \<le> x \<and> x \<le> 1"
    by simp
  show ?thesis
    using clamp_guards_log [OF u t r] u t by (simp add: clamp_eq)
qed

text \<open>
  Claim C7. \<^verbatim>\<open>negloglike\<close> returns a value exactly when its parameter vector has
  seven entries and raises \<^verbatim>\<open>ValueError\<close> otherwise; the seven entries are, in order,
  \<open>beta, betahat, delta, gamma, phi, alpha, sigma\<close>; \<open>par_init\<close> has seven entries;
  and in a completed estimation the estimate has seven entries and the \<open>K\<close> that enters
  \<open>adj\<close> is 7.
\<close>

theorem seven_parameters:
  "((\<exists>v. negloglike cdf ps rows = Inr v) \<longleftrightarrow> length ps = 7)
   \<and> (length ps \<noteq> 7 \<longrightarrow> negloglike cdf ps rows = Inl ValueError)
   \<and> (\<forall>p. unpack ps = Inr p \<longrightarrow>
         ps = [beta p, betahat p, delta p, gamma p, phi p, alpha p, sigma p])
   \<and> length par_init = 7
   \<and> (\<forall>r. estimate L dt = Inr r \<longrightarrow>
         K r = 7 \<and> length (res r) = 7 \<and> adj_factor (Nobs r) 7 (Nindiv r) = Inr (adj r))"
proof (intro conjI allI impI)
  show "(\<exists>v. negloglike cdf ps rows = Inr v) \<longleftrightarrow> length ps = 7"
    by (rule negloglike_Inr_iff)
  show "negloglike cdf ps rows = Inl ValueError" if "length ps \<noteq> 7"
    using that unpack_Inr_length [of ps]
    by (cases "unpack ps") (auto simp: negloglike_def  elim: unpack.elims)
  show "ps = [beta p, betahat p, delta p, gamma p, phi p, alpha p, sigma p]"
    if "unpack ps = Inr p" for p
    using that by (rule unpack_Inr_nth)
  show "length par_init = 7"
    by (simp add: par_init_def)
  fix r assume r: "estimate L dt = Inr r"
  note d = estimate_InrD [OF r]
  show k: "K r = 7" and "length (res r) = 7"
    using d(2) d(5) by (auto dest: negloglike_Inr_length)
  show "adj_factor (Nobs r) 7 (Nindiv r) = Inr (adj r)"
    using d(9) k by simp
qed

theorem seven_parameters_witness:
  "unpack par_init
     = Inr \<lparr>beta = 4 / 5, betahat = 1, delta = 1, gamma = 2, phi = 500, alpha = 7, sigma = 40\<rparr>
   \<and> par_init = [4 / 5, 1, 1, 2, 500, 7, 40]
   \<and> negloglike sample_cdf [1, 2] [] = Inl ValueError
   \<and> (\<exists>r. estimate sample_library (clean sample_dta [0, 1]) = Inr r \<and> K r = 7)"
proof -
  let ?p = "\<lparr>beta = 4 / 5, betahat = 1, delta = 1, gamma = 2, phi = 500, alpha = 7, sigma = 40\<rparr>"
  have 1: "unpack par_init = Inr ?p"
    by (simp add: par_init_def)
  have "par_init = [beta ?p, betahat ?p, delta ?p, gamma ?p, phi ?p, alpha ?p, sigma ?p]"
    using seven_parameters [of sample_cdf par_init "[]"] 1 by blast
  then have 2: "par_init = [4 / 5, 1, 1, 2, 500, 7, 40]"
    by simp
  have "length [1, 2::real] \<noteq> 7" by simp
  then have 3: "negloglike sample_cdf [1, 2] [] = Inl ValueError"
    using seven_parameters [of sample_cdf "[1, 2]" "[]"] by blast
  obtain r where r: "estimate sample_library (clean sample_dta [0, 1]) = Inr r"
    using sample_estimate ..
  have "K r = 7"
    using seven_parameters [of sample_cdf par_init "[]" sample_library "clean sample_dta [0, 1]"] r
    by blast
  then show ?thesis using 1 2 3 r by blast
qed

subsection \<open>The cleaned table\<close>

text \<open>
  Claim C9. In every row of the cleaned table each boundary dummy is 0 or 1,
  \<open>ind_effort10\<close> is 1 exactly when \<open>effort = 10\<close> and \<open>ind_effort110\<close> exactly
  when \<open>effort = 110\<close>, they are never both 1, and the three branch weights
  \<open>(1 - ind_effort10 - ind_effort110, ind_effort10, ind_effort110)\<close> are one of
  \<open>(1,0,0)\<close>, \<open>(0,1,0)\<close>, \<open>(0,0,1)\<close>: exactly one branch contributes, and the
  weights sum to 1.
\<close>

theorem boundary_dummies_exclusive:
  assumes "x \<in> set (clean dta ind_keep)"
  shows "(ind_effort10 x = 0 \<or> ind_effort10 x = 1)
    \<and> (ind_effort110 x = 0 \<or> ind_effort110 x = 1)
    \<and> (ind_effort10 x = 1 \<longleftrightarrow> effort x = 10)
    \<and> (ind_effort110 x = 1 \<longleftrightarrow> effort x = 110)
    \<and> \<not> (ind_effort10 x = 1 \<and> ind_effort110 x = 1)
    \<and> (1 - ind_effort10 x - ind_effort110 x, ind_effort10 x, ind_effort110 x)
          \<in> {(1, 0, 0), (0, 1, 0), (0, 0, 1)}
    \<and> (1 - real_of_int (ind_effort10 x) - real_of_int (ind_effort110 x))
          + real_of_int (ind_effort10 x) + real_of_int (ind_effort110 x) = 1"
  using clean_dummies [OF assms] by auto

theorem boundary_dummies_exclusive_witness:
  "\<exists>x \<in> set (clean sample_dta [0, 1]). effort x = 10 \<and> ind_effort10 x = 1 \<and> ind_effort110 x = 0
     \<and> (1 - ind_effort10 x - ind_effort110 x, ind_effort10 x, ind_effort110 x) = (0, 1, 0)"
proof -
  have m: "hd (clean sample_dta [0, 1]) \<in> set (clean sample_dta [0, 1])"
    by code_simp
  have e: "effort (hd (clean sample_dta [0, 1])) = 10"
    by code_simp
  show ?thesis
    using boundary_dummies_exclusive [OF m] m e by (intro bexI [OF _ m]) auto
qed

subsection \<open>The adjustment factor\<close>

text \<open>
  Claim C10. In a completed estimation \<open>r\<close>, \<open>Nobs\<close> is the number of rows of the
  table, \<open>K\<close> is 7 and \<open>Nindiv\<close> is the number of distinct \<open>wid\<close>. Whenever
  \<open>Nobs > K > 1\<close> and \<open>Nindiv > 1\<close>, the factor \<open>adj\<close> is
  \<open>(Nobs - 1)/(Nobs - K) \<cdot> Nindiv/(Nindiv - 1)\<close> over the reals and is strictly
  greater than 1; every entry of \<open>varcov_estimates\<close> is \<open>adj\<close> times the entry of the
  unadjusted sandwich \<open>hess_inv \<cdot> G \<cdot> hess_inv\<close>, so every positive unadjusted
  variance (diagonal entry) is strictly increased.
\<close>

theorem adj_inflates_variance:
  assumes "estimate L dt = Inr r" and "K r < Nobs r" and "1 < K r" and "1 < Nindiv r"
  shows "Nobs r = length dt \<and> K r = 7 \<and> Nindiv r = card (wid ` set dt)
    \<and> adj r = (real (Nobs r) - 1) / (real (Nobs r) - real (K r))
               * (real (Nindiv r) / (real (Nindiv r) - 1))
    \<and> 1 < adj r
    \<and> (\<forall>i<K r. \<forall>j<K r. varcov_estimates r ! i ! j
          = adj r * matmul (K r) (matmul (K r) (hess_inv r) (G r)) (hess_inv r) ! i ! j)
    \<and> (\<forall>i<K r. 0 < matmul (K r) (matmul (K r) (hess_inv r) (G r)) (hess_inv r) ! i ! i
          \<longrightarrow> matmul (K r) (matmul (K r) (hess_inv r) (G r)) (hess_inv r) ! i ! i
                < varcov_estimates r ! i ! i)"
proof -
  note d = estimate_InrD [OF assms(1)]
  have k7: "K r = 7"
    using d(2) d(5) by (auto dest: negloglike_Inr_length)
  have ni: "Nindiv r = card (wid ` set dt)"
    using d(8) by (simp add: length_remdups_card_conv)
  have a: "adj r = (real (Nobs r) - 1) / (real (Nobs r) - real (K r))
               * (real (Nindiv r) / (real (Nindiv r) - 1))"
    using adj_factor_gt_one(1) [OF assms(2-4)] d(9) by simp
  have g: "1 < adj r"
    using adj_factor_gt_one(2) [OF assms(2-4)] a by simp
  have v: "\<And>i j. i < K r \<Longrightarrow> j < K r \<Longrightarrow> varcov_estimates r ! i ! j
          = adj r * matmul (K r) (matmul (K r) (hess_inv r) (G r)) (hess_inv r) ! i ! j"
    using d(10) by (simp add: smult_matmul_nth)
  have s: "\<And>x::real. 0 < x \<Longrightarrow> x < adj r * x"
    using g by simp
  show ?thesis
    using d(7) k7 ni a g v s by simp
qed

theorem adj_inflates_variance_witness:
  "\<exists>r. estimate sample_library (clean sample_dta [0, 1]) = Inr r
     \<and> K r < Nobs r \<and> 1 < K r \<and> 1 < Nindiv r \<and> K r = 7 \<and> Nobs r = 9 \<and> 1 < adj r"
proof -
  have l: "length (clean sample_dta [0, 1]) = 9" by code_simp
  have c: "length (remdups (map wid (clean sample_dta [0, 1]))) = 2" by code_simp
  have "\<exists>r. estimate sample_library (clean sample_dta [0, 1]) = Inr r"
    by (rule estimate_InrI [where Hi = "smult (1/2) (identity 7)" and a = "8 / 2 * 2 / 1"])
       (simp_all add: sample_library_def par_init_def l c adj_factor_def)
  then obtain r where r: "estimate sample_library (clean sample_dta [0, 1]) = Inr r" ..
  note d = estimate_InrD [OF r]
  have k: "K r = 7" using d(1) d(5) by (simp add: sample_library_def par_init_def)
  have n: "Nobs r = 9" using d(7) l by simp
  have i: "Nindiv r = 2" using d(8) c by simp
  have h: "K r < Nobs r" "1 < K r" "1 < Nindiv r" using k n i by simp_all
  show ?thesis
    using adj_inflates_variance [OF r h] r h k n by blast
qed

end
